theory Spec2Isabelle
  imports Main "HOL-Library.Sublist"
begin

section \<open>Python strings\<close>

text \<open>
  A Python \<open>str\<close> is modelled as a \<open>string\<close> whose characters are the code points below
  256 (Latin-1). The character classes below are Python's own, restricted to that range.
\<close>

definition whitespace :: "char list" where
  \<comment> \<open>\<open>str.isspace\<close>, also the class \<open>\s\<close> of \<open>re\<close> on a \<open>str\<close> pattern\<close>
  "whitespace = [CHR 0x09, CHR 0x0A, CHR 0x0B, CHR 0x0C, CHR 0x0D,
                 CHR 0x1C, CHR 0x1D, CHR 0x1E, CHR 0x1F, CHR 0x20, CHR 0x85, CHR 0xA0]"

definition isspace :: "char \<Rightarrow> bool" where
  "isspace c = (c \<in> set whitespace)"

definition isdigit :: "char \<Rightarrow> bool" where
  \<comment> \<open>the class \<open>\d\<close>\<close>
  "isdigit c = (c \<in> set ''0123456789'')"

definition linebreak :: "char \<Rightarrow> bool" where
  \<comment> \<open>the line boundaries of \<open>str.splitlines\<close>; \<open>\r\n\<close> is handled in \<open>splitlines_from\<close>\<close>
  "linebreak c = (c \<in> set [CHR 0x0A, CHR 0x0B, CHR 0x0C, CHR 0x0D, CHR 0x1C, CHR 0x1D, CHR 0x1E, CHR 0x85])"

definition strip :: "string \<Rightarrow> string" where
  "strip s = rev (dropWhile isspace (rev (dropWhile isspace s)))"

definition lower_char :: "char \<Rightarrow> char" where
  "lower_char c =
     (let n = (of_char c :: nat)
      in if (65 \<le> n \<and> n \<le> 90) \<or> (192 \<le> n \<and> n \<le> 222 \<and> n \<noteq> 215)
         then char_of (n + 32) else c)"

definition lower :: "string \<Rightarrow> string" where
  "lower s = map lower_char s"

fun contains :: "string \<Rightarrow> string \<Rightarrow> bool" where
  \<comment> \<open>\<open>contains sub s\<close> is Python's \<open>sub in s\<close>\<close>
  "contains sub [] = (sub = [])"
| "contains sub (c # cs) = (prefix sub (c # cs) \<or> contains sub cs)"

function replace_str :: "string \<Rightarrow> string \<Rightarrow> string \<Rightarrow> string" where
  \<comment> \<open>\<open>s.replace(old, new)\<close> for a non-empty \<open>old\<close> (the only call has \<open>old = "mailto:"\<close>)\<close>
  "replace_str old new s =
     (if s = [] \<or> old = [] then s
      else if prefix old s then new @ replace_str old new (drop (length old) s)
      else hd s # replace_str old new (tl s))"
  by pat_completeness auto
termination
  by (relation "measure (\<lambda>(old, new, s). length s)") auto

declare replace_str.simps [simp del]

fun splitlines_from :: "string \<Rightarrow> string \<Rightarrow> string list" where
  \<comment> \<open>\<open>cur\<close> is the line read so far, reversed\<close>
  "splitlines_from cur [] = (if cur = [] then [] else [rev cur])"
| "splitlines_from cur (c # cs) =
     (if c = CHR 0x0D \<and> cs \<noteq> [] \<and> hd cs = CHR 0x0A then rev cur # splitlines_from [] (tl cs)
      else if linebreak c then rev cur # splitlines_from [] cs
      else splitlines_from (c # cur) cs)"

definition splitlines :: "string \<Rightarrow> string list" where
  "splitlines s = splitlines_from [] s"

fun join :: "string \<Rightarrow> string list \<Rightarrow> string" where
  \<comment> \<open>\<open>sep.join(xs)\<close>\<close>
  "join sep [] = []"
| "join sep [x] = x"
| "join sep (x # y # ys) = x @ sep @ join sep (y # ys)"

section \<open>The phone pattern\<close>

text \<open>
  \<open>re.search(r"(\(?\d{3}\)?[-.\s]?\d{3}[-.\s]?\d{4})", text)\<close>. Every optional item of the
  pattern is one character of a class that holds no digit and is followed, after optional
  items only, by a digit: where the character is there, leaving it out cannot match. So
  the greedy choice is the only one and the matcher needs no backtracking.
\<close>

definition opt :: "(char \<Rightarrow> bool) \<Rightarrow> string \<Rightarrow> nat" where
  \<comment> \<open>the number of characters an optional one-character item takes\<close>
  "opt P s = (case s of [] \<Rightarrow> 0 | c # _ \<Rightarrow> if P c then 1 else 0)"

definition digits :: "nat \<Rightarrow> string \<Rightarrow> bool" where
  \<comment> \<open>\<open>\d{n}\<close> matches at the start of \<open>s\<close>\<close>
  "digits n s = (n \<le> length s \<and> list_all isdigit (take n s))"

definition sepchar :: "char \<Rightarrow> bool" where
  \<comment> \<open>the class \<open>[-.\s]\<close>\<close>
  "sepchar c = (c = CHR ''-'' \<or> c = CHR ''.'' \<or> isspace c)"

definition match_phone :: "string \<Rightarrow> nat option" where
  \<comment> \<open>the length of the match of the pattern at the start of \<open>s\<close>, if there is one\<close>
  "match_phone s =
     (let a = opt (\<lambda>c. c = CHR ''('') s; s1 = drop a s
      in if \<not> digits 3 s1 then None
         else let s2 = drop 3 s1;
                  b = opt (\<lambda>c. c = CHR '')'') s2; s3 = drop b s2;
                  c = opt sepchar s3; s4 = drop c s3
              in if \<not> digits 3 s4 then None
                 else let s5 = drop 3 s4;
                          d = opt sepchar s5; s6 = drop d s5
                      in if \<not> digits 4 s6 then None
                         else Some (a + 3 + b + c + 3 + d + 4))"

fun search_phone :: "string \<Rightarrow> string option" where
  \<comment> \<open>\<open>re.search\<close>: the match at the leftmost position that has one; \<open>group(1)\<close> is the whole match\<close>
  "search_phone [] = None"
| "search_phone (c # cs) =
     (case match_phone (c # cs) of
        Some n \<Rightarrow> Some (take n (c # cs))
      | None \<Rightarrow> search_phone cs)"

section \<open>The parsed document\<close>

text \<open>
  \<open>BeautifulSoup(html, "html.parser")\<close> is the library's: the model starts from the tree
  it returns. A node is a tag with its name, its attributes (the items of its attribute
  dictionary) and its children, or a text node. The root is the tag \<open>[document]\<close>.
\<close>

datatype node = Tag string "(string \<times> string) list" "node list" | NavigableString string

fun tag_name :: "node \<Rightarrow> string" where
  "tag_name (Tag n as cs) = n"
| "tag_name (NavigableString s) = []"

fun attr_get :: "node \<Rightarrow> string \<Rightarrow> string \<Rightarrow> string" where
  \<comment> \<open>\<open>tag.get(key, default)\<close>\<close>
  "attr_get (Tag n as cs) key dflt = (case map_of as key of None \<Rightarrow> dflt | Some v \<Rightarrow> v)"
| "attr_get (NavigableString s) key dflt = dflt"

fun descendants :: "node list \<Rightarrow> node \<Rightarrow> (node \<times> node \<times> node list) list" where
  \<comment> \<open>every node below a node in document order, each with its parent and the parent's
      own ancestors, nearest first; \<open>up\<close> are the ancestors of the node itself\<close>
  "descendants up (NavigableString s) = []"
| "descendants up (Tag n as cs) =
     concat (map (\<lambda>c. (c, Tag n as cs, up) # descendants (Tag n as cs # up) c) cs)"

fun all_strings :: "node \<Rightarrow> string list" where
  \<comment> \<open>the text nodes at or below a node, in document order\<close>
  "all_strings (NavigableString s) = [s]"
| "all_strings (Tag n as cs) = concat (map all_strings cs)"

definition get_text :: "node \<Rightarrow> string \<Rightarrow> string" where
  \<comment> \<open>\<open>tag.get_text(separator, strip=True)\<close>: every text node stripped, the empty ones
      left out, the rest joined by the separator\<close>
  "get_text t separator = join separator (filter (\<lambda>s. s \<noteq> []) (map strip (all_strings t)))"

definition is_mailto :: "node \<Rightarrow> bool" where
  \<comment> \<open>the selector \<open>a[href^="mailto:"]\<close>\<close>
  "is_mailto t =
     (case t of
        NavigableString s \<Rightarrow> False
      | Tag n as cs \<Rightarrow>
          n = ''a'' \<and> (case map_of as ''href'' of None \<Rightarrow> False | Some v \<Rightarrow> prefix ''mailto:'' v))"

definition select_mailto :: "node \<Rightarrow> (node \<times> node \<times> node list) list" where
  \<comment> \<open>\<open>soup.select('a[href^="mailto:"]')\<close>: the matching descendants in document order,
      each with its parent and further ancestors\<close>
  "select_mailto soup = filter (\<lambda>(t, parent, up). is_mailto t) (descendants [] soup)"

definition find_parent :: "node \<Rightarrow> node list \<Rightarrow> string list \<Rightarrow> node option" where
  \<comment> \<open>\<open>tag.find_parent(names)\<close>: the nearest ancestor whose name is one of \<open>names\<close>\<close>
  "find_parent parent up names = find (\<lambda>p. tag_name p \<in> set names) (parent # up)"

section \<open>The entry parser\<close>

text \<open>An entry is a Python dictionary, kept as the list of its items in insertion order.\<close>

type_synonym row = "(string \<times> string) list"

definition dict_get :: "row \<Rightarrow> string \<Rightarrow> string \<Rightarrow> string" where
  \<comment> \<open>\<open>r.get(key, default)\<close>\<close>
  "dict_get r key dflt = (case map_of r key of None \<Rightarrow> dflt | Some v \<Rightarrow> v)"

definition kept_lines :: "string \<Rightarrow> string \<Rightarrow> string \<Rightarrow> string list" where
  \<comment> \<open>\<open>[t for t in text.splitlines() if t and email not in t and phone not in t]\<close>\<close>
  "kept_lines email phone text =
     filter (\<lambda>t. t \<noteq> [] \<and> \<not> contains email t \<and> \<not> contains phone t) (splitlines text)"

definition entry_of :: "string \<Rightarrow> node \<Rightarrow> row" where
  \<comment> \<open>the body of the loop after the \<open>continue\<close>, for the link's address and its block\<close>
  "entry_of email block =
     (let text = get_text block [CHR '' '', CHR 0x0A];
          phone = (case search_phone text of Some m \<Rightarrow> m | None \<Rightarrow> []);
          lines = kept_lines email phone text;
          name = (case lines of [] \<Rightarrow> [] | l # _ \<Rightarrow> l);
          brokerage = (case lines of l # l' # _ \<Rightarrow> l' | _ \<Rightarrow> [])
      in [(''Name'', name), (''Brokerage'', brokerage), (''Email'', email), (''Phone'', phone)])"

definition link_email :: "node \<Rightarrow> string" where
  \<comment> \<open>\<open>mailto.get("href", "").replace("mailto:", "").strip()\<close>\<close>
  "link_email mailto = strip (replace_str ''mailto:'' [] (attr_get mailto ''href'' []))"

definition block_of :: "node \<Rightarrow> node list \<Rightarrow> node" where
  \<comment> \<open>\<open>mailto.find_parent(["div", "li", "tr"]) or mailto.parent\<close>\<close>
  "block_of parent up =
     (case find_parent parent up [''div'', ''li'', ''tr''] of Some b \<Rightarrow> b | None \<Rightarrow> parent)"

fun parse_links :: "(node \<times> node \<times> node list) list \<Rightarrow> row list" where
  \<comment> \<open>the \<open>for\<close> loop of \<open>parse_entries\<close>\<close>
  "parse_links [] = []"
| "parse_links ((mailto, parent, up) # rest) =
     (let email = link_email mailto
      in if email = [] then parse_links rest
         else entry_of email (block_of parent up) # parse_links rest)"

definition parse_entries :: "node \<Rightarrow> row list" where
  \<comment> \<open>\<open>parse_entries(html)\<close>, from \<open>soup = BeautifulSoup(html, "html.parser")\<close> on\<close>
  "parse_entries soup = parse_links (select_mailto soup)"

definition document :: "node list \<Rightarrow> node" where
  \<comment> \<open>the root object of a parsed document\<close>
  "document cs = Tag ''[document]'' [] cs"

definition scenario_A :: node where
  \<comment> \<open>the tree of
      \<open><li><a href="mailto:jane@ex.com">jane@ex.com</a> Jane Doe ABC Realty (705) 555-1234</li>\<close>\<close>
  "scenario_A = document
     [Tag ''li'' []
        [Tag ''a'' [(''href'', ''mailto:jane@ex.com'')] [NavigableString ''jane@ex.com''],
         NavigableString '' Jane Doe ABC Realty (705) 555-1234'']]"

section \<open>The deduplicator\<close>

definition email_key :: "row \<Rightarrow> string" where
  \<comment> \<open>\<open>r.get("Email", "").lower()\<close>\<close>
  "email_key r = lower (dict_get r ''Email'' [])"

fun dedup_loop :: "string set \<Rightarrow> row list \<Rightarrow> row list \<Rightarrow> row list" where
  \<comment> \<open>the \<open>for\<close> loop of \<open>deduplicate\<close> on the state \<open>seen\<close>, \<open>unique\<close>\<close>
  "dedup_loop seen unique [] = unique"
| "dedup_loop seen unique (r # rows) =
     (let key = email_key r
      in if key \<noteq> [] \<and> key \<notin> seen then dedup_loop (insert key seen) (unique @ [r]) rows
         else dedup_loop seen unique rows)"

definition deduplicate :: "row list \<Rightarrow> row list" where
  "deduplicate rows = dedup_loop {} [] rows"

section \<open>The outside world\<close>

text \<open>
  The calls that leave the process are recorded as events, in order. What they return is
  fixed by a \<open>world\<close>: the answer of the web server, whether each browser and spreadsheet
  call succeeds, the environment and the file system. A function returns its result, an
  error where the source raises, and the events of the calls it made.
\<close>

datatype error =
    FetchError nat string  \<comment> \<open>\<open>RuntimeError(f"HTTP {status} while fetching {url}")\<close>\<close>
  | RequestError           \<comment> \<open>raised by \<open>requests.get\<close> itself\<close>
  | BrowserError           \<comment> \<open>raised by a Playwright call\<close>
  | ConfigError            \<comment> \<open>\<open>RuntimeError("Missing GOOGLE_CREDS_JSON environment variable or file")\<close>\<close>
  | UploadError            \<comment> \<open>raised by a credential or gspread call\<close>
  | KeyError string

datatype event =
    HttpGet string
  | Sleep nat
  | PlaywrightStart        \<comment> \<open>entering \<open>with sync_playwright() as p\<close>\<close>
  | Launch bool
  | NewPage
  | Goto string
  | Content
  | BrowserClose
  | PlaywrightStop         \<comment> \<open>leaving the \<open>with\<close> block\<close>
  | ReadKeyfile string
  | Authorize
  | OpenByKey string
  | Worksheet string
  | AppendRows "string list list"
  | LogInfo string
  | LogCount string nat

record world =
  argv_headless :: "string option"           \<comment> \<open>the value of \<open>--headless\<close>, when given\<close>
  http_get :: "string \<Rightarrow> (nat \<times> string) option" \<comment> \<open>status and body; \<open>None\<close> when the request raises\<close>
  soup_of :: "string \<Rightarrow> node"               \<comment> \<open>\<open>BeautifulSoup(html, "html.parser")\<close>\<close>
  start_ok :: bool
  launch_ok :: bool
  new_page_ok :: bool
  goto_ok :: bool
  page_content :: "string option"
  close_ok :: bool
  environ_creds :: "string option"           \<comment> \<open>\<open>os.environ.get("GOOGLE_CREDS_JSON")\<close>\<close>
  path_exists :: "string \<Rightarrow> bool"
  keyfile_ok :: bool
  authorize_ok :: bool
  open_ok :: bool
  worksheet_ok :: bool
  append_ok :: bool

definition URL :: string where
  "URL = ''https://sudburyrealestateboard.com/find-a-realtor/''"

definition SHEET_ID :: string where
  "SHEET_ID = ''1-kGNDW07iQ7WarkpHmhPCgI6wEHFyFbf6-VqnIEiYQs''"

definition SHEET_TAB :: string where
  "SHEET_TAB = ''Mortgage Agent List''"

section \<open>The fetchers\<close>

definition fetch_with_requests :: "world \<Rightarrow> string \<Rightarrow> (error + string) \<times> event list" where
  "fetch_with_requests w url =
     (case http_get w url of
        None \<Rightarrow> (Inl RequestError, [HttpGet url])
      | Some (status_code, text) \<Rightarrow>
          if status_code \<noteq> 200 then (Inl (FetchError status_code url), [HttpGet url])
          else (Inr text, [HttpGet url, Sleep 1]))"

definition playwright_body :: "world \<Rightarrow> string \<Rightarrow> bool \<Rightarrow> (error + string) \<times> event list" where
  \<comment> \<open>the body of the \<open>with\<close> block\<close>
  "playwright_body w url headless =
     (if \<not> launch_ok w then (Inl BrowserError, [Launch headless])
      else if \<not> new_page_ok w then (Inl BrowserError, [Launch headless, NewPage])
      else if \<not> goto_ok w then (Inl BrowserError, [Launch headless, NewPage, Goto url])
      else case page_content w of
             None \<Rightarrow> (Inl BrowserError, [Launch headless, NewPage, Goto url, Sleep 1, Content])
           | Some content \<Rightarrow>
               if \<not> close_ok w
               then (Inl BrowserError, [Launch headless, NewPage, Goto url, Sleep 1, Content, BrowserClose])
               else (Inr content, [Launch headless, NewPage, Goto url, Sleep 1, Content, BrowserClose]))"

definition fetch_with_playwright :: "world \<Rightarrow> string \<Rightarrow> bool \<Rightarrow> (error + string) \<times> event list" where
  \<comment> \<open>\<open>with\<close>: when the context is entered, it is left after the body, whether the body
      returns or raises\<close>
  "fetch_with_playwright w url headless =
     (if \<not> start_ok w then (Inl BrowserError, [PlaywrightStart])
      else let (r, body) = playwright_body w url headless
           in (r, [PlaywrightStart] @ body @ [PlaywrightStop]))"

section \<open>The sheet uploader\<close>

definition dict_item :: "row \<Rightarrow> string \<Rightarrow> error + string" where
  \<comment> \<open>\<open>r[key]\<close>\<close>
  "dict_item r key = (case map_of r key of None \<Rightarrow> Inl (KeyError key) | Some v \<Rightarrow> Inr v)"

definition row_values :: "row \<Rightarrow> error + string list" where
  \<comment> \<open>\<open>[r["Name"], r["Brokerage"], r["Email"], r["Phone"]]\<close>\<close>
  "row_values r =
     (case dict_item r ''Name'' of Inl e \<Rightarrow> Inl e | Inr n \<Rightarrow>
     (case dict_item r ''Brokerage'' of Inl e \<Rightarrow> Inl e | Inr b \<Rightarrow>
     (case dict_item r ''Email'' of Inl e \<Rightarrow> Inl e | Inr m \<Rightarrow>
     (case dict_item r ''Phone'' of Inl e \<Rightarrow> Inl e | Inr p \<Rightarrow> Inr [n, b, m, p]))))"

fun rows_data :: "row list \<Rightarrow> error + string list list" where
  \<comment> \<open>the list comprehension building \<open>data\<close>\<close>
  "rows_data [] = Inr []"
| "rows_data (r # rs) =
     (case row_values r of
        Inl e \<Rightarrow> Inl e
      | Inr v \<Rightarrow> (case rows_data rs of Inl e \<Rightarrow> Inl e | Inr vs \<Rightarrow> Inr (v # vs)))"

definition append_to_sheet :: "world \<Rightarrow> row list \<Rightarrow> (error + unit) \<times> event list" where
  "append_to_sheet w rows =
     (case environ_creds w of
        None \<Rightarrow> (Inl ConfigError, [])
      | Some creds_path \<Rightarrow>
          if creds_path = [] \<or> \<not> path_exists w creds_path then (Inl ConfigError, [])
          else if \<not> keyfile_ok w then (Inl UploadError, [ReadKeyfile creds_path])
          else if \<not> authorize_ok w then (Inl UploadError, [ReadKeyfile creds_path, Authorize])
          else if \<not> open_ok w
            then (Inl UploadError, [ReadKeyfile creds_path, Authorize, OpenByKey SHEET_ID])
          else let opened = [ReadKeyfile creds_path, Authorize, OpenByKey SHEET_ID,
                             Worksheet SHEET_TAB]
               in if \<not> worksheet_ok w then (Inl UploadError, opened)
                  else (case rows_data rows of
                          Inl e \<Rightarrow> (Inl e, opened)
                        | Inr data \<Rightarrow>
                            if data = [] then (Inr (), opened)
                            else if \<not> append_ok w then (Inl UploadError, opened @ [AppendRows data])
                            else (Inr (), opened @ [AppendRows data])))"

definition sheet_call :: "event \<Rightarrow> bool" where
  \<comment> \<open>the calls that go to the spreadsheet service\<close>
  "sheet_call e =
     (case e of Authorize \<Rightarrow> True | OpenByKey k \<Rightarrow> True | Worksheet t \<Rightarrow> True
              | AppendRows d \<Rightarrow> True | _ \<Rightarrow> False)"

section \<open>The orchestrator\<close>

definition headless_flag :: "string option \<Rightarrow> bool" where
  \<comment> \<open>\<open>default=True, type=lambda x: str(x).lower() != "false"\<close>\<close>
  "headless_flag a = (case a of None \<Rightarrow> True | Some x \<Rightarrow> lower x \<noteq> ''false'')"

definition fetch_entries :: "world \<Rightarrow> bool \<Rightarrow> (error + row list) \<times> event list" where
  \<comment> \<open>lines 106 to 111 of \<open>main\<close>: the static fetch and the fallback\<close>
  "fetch_entries w headless =
     (case fetch_with_requests w URL of
        (Inl e, t1) \<Rightarrow> (Inl e, t1)
      | (Inr html, t1) \<Rightarrow>
          let entries = parse_entries (soup_of w html)
          in if entries = []
             then (case fetch_with_playwright w URL headless of
                     (Inl e, t2) \<Rightarrow> (Inl e, t1 @ [LogInfo ''Switching to Playwright scraping''] @ t2)
                   | (Inr html', t2) \<Rightarrow>
                       (Inr (parse_entries (soup_of w html')),
                        t1 @ [LogInfo ''Switching to Playwright scraping''] @ t2))
             else (Inr entries, t1))"

definition main :: "world \<Rightarrow> (error + unit) \<times> event list" where
  \<comment> \<open>after start-up (\<open>load_dotenv\<close>, the argument parser, \<open>setup_logging\<close>)\<close>
  "main w =
     (case fetch_entries w (headless_flag (argv_headless w)) of
        (Inl e, t) \<Rightarrow> (Inl e, [LogInfo ''Starting scrape''] @ t)
      | (Inr entries, t) \<Rightarrow>
          let rows = deduplicate entries
          in (case append_to_sheet w rows of
                (Inl e, t') \<Rightarrow>
                  (Inl e, [LogInfo ''Starting scrape''] @ t
                          @ [LogCount ''Parsed %d unique rows'' (length rows)] @ t')
              | (Inr u, t') \<Rightarrow>
                  (Inr (), [LogInfo ''Starting scrape''] @ t
                           @ [LogCount ''Parsed %d unique rows'' (length rows)] @ t'
                           @ [LogInfo ''Completed upload''])))"

definition rendered_calls :: "event list \<Rightarrow> nat" where
  \<comment> \<open>how often the rendered fetcher was called: each call starts by entering the context\<close>
  "rendered_calls t = count_list t PlaywrightStart"

section \<open>Inputs used below\<close>

definition first_of_key :: "string set \<Rightarrow> row list \<Rightarrow> nat \<Rightarrow> bool" where
  \<comment> \<open>row \<open>i\<close> has a non-empty key that is not in \<open>seen\<close> and that no earlier row has\<close>
  "first_of_key seen rows i =
     (email_key (rows ! i) \<noteq> [] \<and> email_key (rows ! i) \<notin> seen \<and>
      email_key (rows ! i) \<notin> set (map email_key (take i rows)))"

definition lines_without :: "string \<Rightarrow> string \<Rightarrow> string \<Rightarrow> string list" where
  \<comment> \<open>the lines of a text left when exactly those containing the address or the phone
      string are removed\<close>
  "lines_without email phone text =
     filter (\<lambda>t. \<not> sublist email t \<and> \<not> sublist phone t) (splitlines text)"

definition blank_line_li :: node where
  \<comment> \<open>a list item whose text after the link is
      \<open>Jane Doe\n\nABC Realty\n(705) 555-1234\<close>, with a blank line\<close>
  "blank_line_li =
     Tag ''li'' []
       [Tag ''a'' [(''href'', ''mailto:jane@ex.com'')] [NavigableString ''jane@ex.com''],
        NavigableString (''Jane Doe'' @ [CHR 0x0A, CHR 0x0A] @ ''ABC Realty'' @ [CHR 0x0A]
                         @ ''(705) 555-1234'')]"

definition no_phone_li :: node where
  \<comment> \<open>the tree of
      \<open><li><a href="mailto:jane@ex.com">jane@ex.com</a><br/>Jane Doe<br/>ABC Realty</li>\<close>\<close>
  "no_phone_li =
     Tag ''li'' []
       [Tag ''a'' [(''href'', ''mailto:jane@ex.com'')] [NavigableString ''jane@ex.com''],
        Tag ''br'' [] [], NavigableString ''Jane Doe'',
        Tag ''br'' [] [], NavigableString ''ABC Realty'']"

definition subject_link :: node where
  \<comment> \<open>the tree of \<open><p><a href="mailto:jane@ex.com?subject=Hello">Write to Jane</a></p>\<close>\<close>
  "subject_link =
     Tag ''p'' []
       [Tag ''a'' [(''href'', ''mailto:jane@ex.com?subject=Hello'')]
          [NavigableString ''Write to Jane'']]"

definition two_cases :: "row list" where
  \<comment> \<open>two rows whose addresses differ in letter case only, and one without an address\<close>
  "two_cases =
     [[(''Name'', ''Jane Doe''), (''Brokerage'', ''ABC Realty''), (''Email'', ''Jane@Ex.com''),
       (''Phone'', ''705-555-1234'')],
      [(''Name'', ''Nobody''), (''Brokerage'', []), (''Email'', []), (''Phone'', [])],
      [(''Name'', ''J. Doe''), (''Brokerage'', ''XYZ Homes''), (''Email'', ''jane@ex.com''),
       (''Phone'', [])]]"

definition good_world :: "node \<Rightarrow> world" where
  \<comment> \<open>a world where every call succeeds and both fetches parse to the given document\<close>
  "good_world soup =
     \<lparr> argv_headless = None,
       http_get = (\<lambda>url. Some (200, ''<html></html>'')),
       soup_of = (\<lambda>html. soup),
       start_ok = True, launch_ok = True, new_page_ok = True, goto_ok = True,
       page_content = Some ''<html></html>'', close_ok = True,
       environ_creds = Some ''creds.json'',
       path_exists = (\<lambda>p. True),
       keyfile_ok = True, authorize_ok = True, open_ok = True, worksheet_ok = True,
       append_ok = True \<rparr>"

section \<open>Properties of the deduplicator\<close>

lemma dedup_loop_unique: "dedup_loop seen unique rows = unique @ dedup_loop seen [] rows"
proof (induction rows arbitrary: seen unique)
  case Nil
  show ?case by simp
next
  case (Cons r rows)
  show ?case
  proof (cases "email_key r \<noteq> [] \<and> email_key r \<notin> seen")
    case True
    have "dedup_loop seen unique (r # rows) = dedup_loop (insert (email_key r) seen) (unique @ [r]) rows"
      using True by simp
    also have "\<dots> = (unique @ [r]) @ dedup_loop (insert (email_key r) seen) [] rows"
      by (rule Cons.IH)
    also have "\<dots> = unique @ dedup_loop (insert (email_key r) seen) [r] rows"
      using Cons.IH [of "insert (email_key r) seen" "[r]"] by simp
    also have "\<dots> = unique @ dedup_loop seen [] (r # rows)"
      using True by simp
    finally show ?thesis .
  next
    case False
    then show ?thesis using Cons.IH [of seen unique] by (auto simp: Let_def)
  qed
qed

lemma dedup_loop_Cons:
  "dedup_loop seen [] (r # rows) =
     (if email_key r \<noteq> [] \<and> email_key r \<notin> seen
      then r # dedup_loop (insert (email_key r) seen) [] rows
      else dedup_loop seen [] rows)"
  using dedup_loop_unique [of "insert (email_key r) seen" "[r]" rows] by (simp add: Let_def)

lemma length_dedup_loop: "length (dedup_loop seen [] rows) \<le> length rows"
proof (induction rows arbitrary: seen)
  case Nil show ?case by simp
next
  case (Cons r rows)
  show ?case using Cons.IH [of seen] Cons.IH [of "insert (email_key r) seen"]
    by (simp only: dedup_loop_Cons split: if_splits) auto
qed

lemma dedup_loop_idem: "dedup_loop seen [] (dedup_loop seen [] rows) = dedup_loop seen [] rows"
proof (induction rows arbitrary: seen)
  case Nil show ?case by simp
next
  case (Cons r rows)
  show ?case
  proof (cases "email_key r \<noteq> [] \<and> email_key r \<notin> seen")
    case True
    then show ?thesis using Cons.IH [of "insert (email_key r) seen"]
      by (simp add: dedup_loop_Cons del: dedup_loop.simps)
  next
    case False
    then have "dedup_loop seen [] (r # rows) = dedup_loop seen [] rows"
      by (simp only: dedup_loop_Cons if_False)
    then show ?thesis using Cons.IH [of seen] by simp
  qed
qed

text \<open>
  Claim C6. For every input sequence the output of the deduplicator is no longer than the
  input, and deduplicating twice gives the same as deduplicating once.
\<close>

theorem deduplicate_shorter_idempotent:
  "length (deduplicate x) \<le> length x \<and> deduplicate (deduplicate x) = deduplicate x"
  by (simp add: deduplicate_def length_dedup_loop dedup_loop_idem)

lemma first_of_key_Suc:
  "first_of_key seen (r # rows) (Suc i) =
     first_of_key (if email_key r \<noteq> [] \<and> email_key r \<notin> seen then insert (email_key r) seen else seen) rows i"
  by (auto simp: first_of_key_def)

lemma dedup_loop_indices:
  "dedup_loop seen [] rows = map ((!) rows) (filter (first_of_key seen rows) [0..<length rows])"
proof (induction rows arbitrary: seen)
  case Nil show ?case by simp
next
  case (Cons r rows)
  let ?seen' = "if email_key r \<noteq> [] \<and> email_key r \<notin> seen then insert (email_key r) seen else seen"
  have upt: "[0..<length (r # rows)] = 0 # map Suc [0..<length rows]"
    by (simp add: upt_conv_Cons map_Suc_upt del: upt_Suc)
  have tl: "map ((!) (r # rows)) (filter (first_of_key seen (r # rows)) (map Suc [0..<length rows]))
        = dedup_loop ?seen' [] rows"
    unfolding Cons.IH [of ?seen'] filter_map map_map
    by (simp add: comp_def first_of_key_Suc del: upt_Suc)
  have hd: "first_of_key seen (r # rows) 0 = (email_key r \<noteq> [] \<and> email_key r \<notin> seen)"
    by (simp add: first_of_key_def)
  show ?case
    unfolding upt dedup_loop_Cons using tl hd by simp
qed


lemma dedup_loop_keys:
  "set (map email_key (dedup_loop seen [] rows)) = set (map email_key rows) - seen - {[]}"
proof (induction rows arbitrary: seen)
  case Nil show ?case by simp
next
  case (Cons r rows)
  show ?case
    using Cons.IH [of seen] Cons.IH [of "insert (email_key r) seen"]
    by (simp only: dedup_loop_Cons split: if_splits) auto
qed

lemma dedup_loop_distinct: "distinct (map email_key (dedup_loop seen [] rows))"
proof (induction rows arbitrary: seen)
  case Nil show ?case by simp
next
  case (Cons r rows)
  show ?case
    using Cons.IH [of seen] Cons.IH [of "insert (email_key r) seen"]
      dedup_loop_keys [of "insert (email_key r) seen" rows]
    by (simp only: dedup_loop_Cons split: if_splits) auto
qed

lemma dedup_loop_subseq: "subseq (dedup_loop seen [] rows) rows"
proof (induction rows arbitrary: seen)
  case Nil show ?case by simp
next
  case (Cons r rows)
  show ?case
    using Cons.IH [of seen] Cons.IH [of "insert (email_key r) seen"]
    by (simp only: dedup_loop_Cons split: if_splits) auto
qed

text \<open>
  Claim C5. For every input sequence the deduplicator returns the rows at exactly those
  positions whose lower-cased address is not empty and occurs at no earlier position, in
  the order of the input. So the output has one row for each distinct non-empty
  lower-cased address of the input and no other, that row is the first one with the
  address, the rows keep their relative order, and no row with an empty address is kept.
\<close>

theorem deduplicate_first_occurrences:
  "deduplicate rows = map ((!) rows) (filter (first_of_key {} rows) [0..<length rows]) \<and>
   distinct (map email_key (deduplicate rows)) \<and>
   set (map email_key (deduplicate rows)) = set (map email_key rows) - {[]} \<and>
   subseq (deduplicate rows) rows \<and>
   (\<forall>r \<in> set (deduplicate rows). dict_get r ''Email'' [] \<noteq> [])"
proof -
  have keys: "set (map email_key (deduplicate rows)) = set (map email_key rows) - {[]}"
    using dedup_loop_keys [of "{}" rows] by (simp add: deduplicate_def)
  have "dict_get r ''Email'' [] \<noteq> []" if "r \<in> set (deduplicate rows)" for r
  proof -
    from that have "email_key r \<in> set (map email_key (deduplicate rows))" by simp
    with keys have "email_key r \<noteq> []" by blast
    then show ?thesis by (auto simp: email_key_def lower_def)
  qed
  with keys show ?thesis
    unfolding deduplicate_def
    using dedup_loop_indices [of "{}" rows] dedup_loop_distinct [of "{}" rows]
      dedup_loop_subseq [of "{}" rows]
    by simp
qed

theorem deduplicate_first_occurrences_witness:
  "deduplicate two_cases = [hd two_cases] \<and>
   distinct (map email_key (deduplicate two_cases)) \<and>
   subseq (deduplicate two_cases) two_cases \<and>
   dict_get (hd two_cases) ''Email'' [] \<noteq> []"
proof -
  have e: "map ((!) two_cases) (filter (first_of_key {} two_cases) [0..<length two_cases])
             = [hd two_cases]"
    by code_simp
  note t = deduplicate_first_occurrences [of two_cases]
  from t have "deduplicate two_cases
      = map ((!) two_cases) (filter (first_of_key {} two_cases) [0..<length two_cases])"
    by (rule conjunct1)
  then have a: "deduplicate two_cases = [hd two_cases]" using e by (rule trans)
  from t have b: "distinct (map email_key (deduplicate two_cases))" by blast
  from t have c: "subseq (deduplicate two_cases) two_cases" by blast
  from t have "\<forall>r \<in> set (deduplicate two_cases). dict_get r ''Email'' [] \<noteq> []" by blast
  with a have d: "dict_get (hd two_cases) ''Email'' [] \<noteq> []" by simp
  from a b c d show ?thesis by blast
qed

section \<open>Properties of the entry parser\<close>

lemma contains_Nil: "contains [] t"
  by (cases t) simp_all

lemma contains_sublist: "contains sub s = sublist sub s"
  by (induction s) (simp_all add: sublist_Cons_right)

lemma kept_lines_no_phone: "kept_lines email [] text = []"
  by (simp add: kept_lines_def contains_Nil)

lemma entry_of_no_phone:
  "map_of (entry_of email block) ''Phone'' = Some [] \<Longrightarrow>
   map_of (entry_of email block) ''Name'' = Some [] \<and>
   map_of (entry_of email block) ''Brokerage'' = Some []"
  by (simp add: entry_of_def Let_def kept_lines_no_phone)

lemma parse_links_entry:
  "e \<in> set (parse_links ls) \<Longrightarrow> \<exists>email block. e = entry_of email block"
  by (induction ls rule: parse_links.induct) (auto simp: Let_def split: if_splits)

text \<open>
  Claim C10. For every parsed document, every entry returned by the entry parser whose
  Phone field is the empty string also has an empty Name and an empty Brokerage: with no
  phone match the phone string is empty, the empty string is contained in every line, and
  so the filter keeps no line.
\<close>

theorem parse_entries_no_phone_no_name:
  "e \<in> set (parse_entries soup) \<Longrightarrow> map_of e ''Phone'' = Some [] \<Longrightarrow>
   map_of e ''Name'' = Some [] \<and> map_of e ''Brokerage'' = Some []"
  using parse_links_entry [of e "select_mailto soup"] entry_of_no_phone
  by (auto simp: parse_entries_def)

lemma parse_links_map:
  "parse_links ls =
     map (\<lambda>(mailto, parent, up). entry_of (link_email mailto) (block_of parent up))
       (filter (\<lambda>(mailto, parent, up). link_email mailto \<noteq> []) ls)"
  by (induction ls rule: parse_links.induct) (simp_all add: Let_def)

lemma entry_of_email: "dict_get (entry_of email block) ''Email'' [] = email"
  by (simp add: entry_of_def Let_def dict_get_def)

lemma parse_links_emails:
  "map (\<lambda>e. dict_get e ''Email'' []) (parse_links ls) =
     filter (\<lambda>m. m \<noteq> []) (map (\<lambda>(mailto, parent, up). link_email mailto) ls)"
  by (induction ls rule: parse_links.induct) (simp_all add: Let_def entry_of_email)

lemma replace_str_absent: "\<not> contains old s \<Longrightarrow> replace_str old new s = s"
proof (induction old new s rule: replace_str.induct)
  case (1 old new s)
  show ?case
  proof (cases "s = [] \<or> old = []")
    case True
    then show ?thesis by (simp add: replace_str.simps)
  next
    case False
    then obtain c cs where s: "s = c # cs" by (cases s) auto
    from "1.prems" s have np: "\<not> prefix old s" and nc: "\<not> contains old (tl s)" by auto
    from "1.IH"(2) [OF False np nc] False np s show ?thesis
      by (subst replace_str.simps) simp
  qed
qed

lemma replace_str_prefix:
  "old \<noteq> [] \<Longrightarrow> \<not> contains old s \<Longrightarrow> replace_str old [] (old @ s) = s"
  by (subst replace_str.simps) (simp add: replace_str_absent)

lemma link_email_plain:
  "map_of as ''href'' = Some (''mailto:'' @ addr) \<Longrightarrow> \<not> contains ''mailto:'' addr \<Longrightarrow>
   link_email (Tag n as cs) = strip addr"
  using replace_str_prefix [of "''mailto:''" addr] by (simp add: link_email_def)

lemma kept_lines_sublist:
  "kept_lines email phone text =
     filter (\<lambda>t. t \<noteq> [] \<and> \<not> sublist email t \<and> \<not> sublist phone t) (splitlines text)"
  by (simp add: kept_lines_def contains_sublist)

text \<open>
  Claim C1, as the code has it. For the document of scenario A the entry parser returns
  exactly one entry, with Email \<open>jane@ex.com\<close> and Phone \<open>(705) 555-1234\<close>, and with an
  empty Name and an empty Brokerage: the text of the block has two lines, the first holds
  the address and the second, \<open>Jane Doe ABC Realty (705) 555-1234\<close>, holds the phone, so
  both are removed.
\<close>

theorem scenario_A_entries:
  "parse_entries scenario_A =
     [[(''Name'', []), (''Brokerage'', []), (''Email'', ''jane@ex.com''),
       (''Phone'', ''(705) 555-1234'')]]"
  by code_simp

text \<open>
  The entry with Name \<open>Jane Doe\<close> and Brokerage \<open>ABC Realty\<close> is not what the parser
  returns for scenario A.
\<close>

theorem scenario_A_not_as_claimed:
  "parse_entries scenario_A \<noteq>
     [[(''Name'', ''Jane Doe''), (''Brokerage'', ''ABC Realty''), (''Email'', ''jane@ex.com''),
       (''Phone'', ''(705) 555-1234'')]]"
  by code_simp

text \<open>
  The lines removed are not exactly those containing the address or the phone: an empty
  line is removed too. In \<open>blank_line_li\<close> the second line left after removing exactly
  the lines with the address or the phone is the blank one, and Brokerage would be empty;
  the parser takes \<open>ABC Realty\<close>.
\<close>

theorem blank_line_also_removed:
  "parse_entries (document [blank_line_li]) =
     [[(''Name'', ''Jane Doe''), (''Brokerage'', ''ABC Realty''), (''Email'', ''jane@ex.com''),
       (''Phone'', ''(705) 555-1234'')]] \<and>
   lines_without ''jane@ex.com'' ''(705) 555-1234'' (get_text blank_line_li [CHR '' '', CHR 0x0A])
     = [''Jane Doe'', [], ''ABC Realty''] \<and>
   kept_lines ''jane@ex.com'' ''(705) 555-1234'' (get_text blank_line_li [CHR '' '', CHR 0x0A])
     \<noteq> lines_without ''jane@ex.com'' ''(705) 555-1234''
         (get_text blank_line_li [CHR '' '', CHR 0x0A])"
  by code_simp

text \<open>
  Claim C2, as the code has it. Every entry of the parser is built from a link with a
  non-empty address and its block. For every block in whose text the phone pattern
  matched, the lines removed before Name and Brokerage are selected are exactly the empty
  lines and the lines containing the address or the matched phone string; the first line
  left is Name and the second is Brokerage, each empty only if there is no such line.
\<close>

theorem entry_from_kept_lines:
  "parse_entries soup =
     map (\<lambda>(mailto, parent, up). entry_of (link_email mailto) (block_of parent up))
       (filter (\<lambda>(mailto, parent, up). link_email mailto \<noteq> []) (select_mailto soup)) \<and>
   (search_phone (get_text block [CHR '' '', CHR 0x0A]) = Some phone \<longrightarrow>
    entry_of email block =
      (let rest = filter (\<lambda>t. t \<noteq> [] \<and> \<not> sublist email t \<and> \<not> sublist phone t)
                    (splitlines (get_text block [CHR '' '', CHR 0x0A]))
       in [(''Name'', if rest = [] then [] else rest ! 0),
           (''Brokerage'', if length rest \<le> 1 then [] else rest ! 1),
           (''Email'', email), (''Phone'', phone)]))"
proof (intro conjI impI)
  show "parse_entries soup =
     map (\<lambda>(mailto, parent, up). entry_of (link_email mailto) (block_of parent up))
       (filter (\<lambda>(mailto, parent, up). link_email mailto \<noteq> []) (select_mailto soup))"
    by (simp add: parse_entries_def parse_links_map)
next
  assume m: "search_phone (get_text block [CHR '' '', CHR 0x0A]) = Some phone"
  define rest where "rest = filter (\<lambda>t. t \<noteq> [] \<and> \<not> sublist email t \<and> \<not> sublist phone t)
                    (splitlines (get_text block [CHR '' '', CHR 0x0A]))"
  have k: "kept_lines email phone (get_text block [CHR '' '', CHR 0x0A]) = rest"
    by (simp add: kept_lines_sublist rest_def)
  have n: "(case rest of [] \<Rightarrow> [] | l # _ \<Rightarrow> l) = (if rest = [] then [] else rest ! 0)"
    by (cases rest) simp_all
  have b: "(case rest of l # l' # _ \<Rightarrow> l' | _ \<Rightarrow> []) = (if length rest \<le> 1 then [] else rest ! 1)"
    by (cases rest; cases "tl rest") auto
  show "entry_of email block =
      (let rest = filter (\<lambda>t. t \<noteq> [] \<and> \<not> sublist email t \<and> \<not> sublist phone t)
                    (splitlines (get_text block [CHR '' '', CHR 0x0A]))
       in [(''Name'', if rest = [] then [] else rest ! 0),
           (''Brokerage'', if length rest \<le> 1 then [] else rest ! 1),
           (''Email'', email), (''Phone'', phone)])"
    unfolding Let_def rest_def [symmetric]
    by (simp add: entry_of_def Let_def m k n b)
qed

theorem entry_from_kept_lines_witness:
  "search_phone (get_text blank_line_li [CHR '' '', CHR 0x0A]) = Some ''(705) 555-1234'' \<and>
   entry_of ''jane@ex.com'' blank_line_li =
     [(''Name'', ''Jane Doe''), (''Brokerage'', ''ABC Realty''), (''Email'', ''jane@ex.com''),
      (''Phone'', ''(705) 555-1234'')]"
proof -
  have h: "search_phone (get_text blank_line_li [CHR '' '', CHR 0x0A]) = Some ''(705) 555-1234''"
    by code_simp
  have r: "(let rest = filter (\<lambda>t. t \<noteq> [] \<and> \<not> sublist ''jane@ex.com'' t
                                 \<and> \<not> sublist ''(705) 555-1234'' t)
                    (splitlines (get_text blank_line_li [CHR '' '', CHR 0x0A]))
       in [(''Name'', if rest = [] then [] else rest ! 0),
           (''Brokerage'', if length rest \<le> 1 then [] else rest ! 1),
           (''Email'', ''jane@ex.com''), (''Phone'', ''(705) 555-1234'')])
      = [(''Name'', ''Jane Doe''), (''Brokerage'', ''ABC Realty''), (''Email'', ''jane@ex.com''),
         (''Phone'', ''(705) 555-1234'')]"
    by code_simp
  from entry_from_kept_lines [of "document []" blank_line_li "''(705) 555-1234''" "''jane@ex.com''"] h
  have "entry_of ''jane@ex.com'' blank_line_li =
      (let rest = filter (\<lambda>t. t \<noteq> [] \<and> \<not> sublist ''jane@ex.com'' t
                                 \<and> \<not> sublist ''(705) 555-1234'' t)
                    (splitlines (get_text blank_line_li [CHR '' '', CHR 0x0A]))
       in [(''Name'', if rest = [] then [] else rest ! 0),
           (''Brokerage'', if length rest \<le> 1 then [] else rest ! 1),
           (''Email'', ''jane@ex.com''), (''Phone'', ''(705) 555-1234'')])"
    by blast
  with r h show ?thesis by (simp only:) 
qed

text \<open>
  Without a phone match every line is removed, whatever it holds: the list item
  \<open>no_phone_li\<close> has the lines \<open>Jane Doe\<close> and \<open>ABC Realty\<close> and gets neither.
\<close>

lemma no_phone_li_entries:
  "parse_entries (document [no_phone_li]) =
     [[(''Name'', []), (''Brokerage'', []), (''Email'', ''jane@ex.com''), (''Phone'', [])]]"
  by code_simp

theorem parse_entries_no_phone_no_name_witness:
  "[(''Name'', []), (''Brokerage'', []), (''Email'', ''jane@ex.com''), (''Phone'', [])]
     \<in> set (parse_entries (document [no_phone_li])) \<and>
   map_of [(''Name'', []), (''Brokerage'', []), (''Email'', ''jane@ex.com''), (''Phone'', [])]
     ''Name'' = Some []"
proof -
  have h1: "[(''Name'', []), (''Brokerage'', []), (''Email'', ''jane@ex.com''), (''Phone'', [])]
     \<in> set (parse_entries (document [no_phone_li]))"
    by (simp add: no_phone_li_entries)
  have h2: "map_of [(''Name'', []), (''Brokerage'', []), (''Email'', ''jane@ex.com''), (''Phone'', [])] ''Phone'' = Some []"
    by simp
  from parse_entries_no_phone_no_name [OF h1 h2] h1 show ?thesis by blast
qed

text \<open>
  A link to \<open>mailto:jane@ex.com?subject=Hello\<close> has the target address
  \<open>jane@ex.com\<close>; the Email of its entry keeps the header part.
\<close>

theorem subject_link_email:
  "parse_entries (document [subject_link]) =
     [[(''Name'', []), (''Brokerage'', []), (''Email'', ''jane@ex.com?subject=Hello''),
       (''Phone'', [])]] \<and>
   map (\<lambda>e. dict_get e ''Email'' []) (parse_entries (document [subject_link]))
     \<noteq> [''jane@ex.com'']"
  by code_simp

text \<open>
  Claim C7, as the code has it. The Email fields of the entries are, in document order,
  the non-empty results of removing every \<open>mailto:\<close> from the link's \<open>href\<close> and
  stripping the surrounding whitespace; a link for which the result is empty produces no
  entry. For an \<open>href\<close> that is \<open>mailto:\<close> followed by a text with no further
  \<open>mailto:\<close> in it, the result is that text, stripped, as it is written: nothing is
  decoded and a header part stays.
\<close>

theorem parse_entries_emails:
  "map (\<lambda>e. dict_get e ''Email'' []) (parse_entries soup) =
     filter (\<lambda>m. m \<noteq> []) (map (\<lambda>(mailto, parent, up). link_email mailto) (select_mailto soup)) \<and>
   (map_of as ''href'' = Some (''mailto:'' @ addr) \<and> \<not> sublist ''mailto:'' addr \<longrightarrow>
    link_email (Tag n as cs) = strip addr)"
  using link_email_plain [of as addr n cs]
  by (simp add: parse_entries_def parse_links_emails contains_sublist)

theorem parse_entries_emails_witness:
  "link_email (Tag ''a'' [(''href'', ''mailto: jane@ex.com '')] []) = ''jane@ex.com''"
proof -
  have h1: "map_of [(''href'', ''mailto: jane@ex.com '')] ''href'' = Some (''mailto:'' @ '' jane@ex.com '')"
    by simp
  have h2: "\<not> sublist ''mailto:'' '' jane@ex.com ''" by code_simp
  have h3: "strip '' jane@ex.com '' = ''jane@ex.com''" by code_simp
  from parse_entries_emails [of "document []" "[(''href'', ''mailto: jane@ex.com '')]" "'' jane@ex.com ''" "''a''" "[]"] h1 h2
  have "link_email (Tag ''a'' [(''href'', ''mailto: jane@ex.com '')] []) = strip '' jane@ex.com ''"
    by blast
  with h3 show ?thesis by (simp only:)
qed

section \<open>Properties of the fetchers, the uploader and the orchestrator\<close>

lemma requests_no_start: "count_list (snd (fetch_with_requests w url)) PlaywrightStart = 0"
  by (simp add: fetch_with_requests_def split: option.splits prod.splits)

lemma sheet_no_start: "count_list (snd (append_to_sheet w rows)) PlaywrightStart = 0"
  by (simp add: append_to_sheet_def Let_def split: option.splits sum.splits)

lemma body_no_start: "count_list (snd (playwright_body w url headless)) PlaywrightStart = 0"
  by (simp add: playwright_body_def split: option.splits)

lemma body_no_stop: "count_list (snd (playwright_body w url headless)) PlaywrightStop = 0"
  by (simp add: playwright_body_def split: option.splits)

lemma playwright_one_start:
  "count_list (snd (fetch_with_playwright w url headless)) PlaywrightStart = 1"
  using body_no_start [of w url headless]
  by (simp add: fetch_with_playwright_def case_prod_beta)

lemma fetch_entries_calls:
  "rendered_calls (snd (fetch_entries w headless)) =
     (case fst (fetch_with_requests w URL) of
        Inl e \<Rightarrow> 0
      | Inr html \<Rightarrow> if parse_entries (soup_of w html) = [] then 1 else 0)"
proof (cases "fetch_with_requests w URL")
  case (Pair r t1)
  note req = requests_no_start [of w URL]
  show ?thesis
  proof (cases r)
    case (Inl e)
    with Pair req show ?thesis by (simp add: fetch_entries_def rendered_calls_def)
  next
    case (Inr html)
    show ?thesis
    proof (cases "fetch_with_playwright w URL headless")
      case (Pair r2 t2)
      with playwright_one_start [of w URL headless] \<open>fetch_with_requests w URL = (r, t1)\<close> Inr req
      show ?thesis
        by (cases r2) (simp_all add: fetch_entries_def rendered_calls_def Let_def)
    qed
  qed
qed

text \<open>
  Claim C4. On every run of the orchestrator the rendered fetcher is called exactly once
  if the static fetch returns a page that parses to no entry, and never if that page
  parses to one entry or more. (When the static fetch raises, the run ends there and the
  rendered fetcher is not called.)
\<close>

theorem rendered_fetch_iff_no_entries:
  "rendered_calls (snd (main w)) =
     (case fst (fetch_with_requests w URL) of
        Inl e \<Rightarrow> 0
      | Inr html \<Rightarrow> if parse_entries (soup_of w html) = [] then 1 else 0)"
proof -
  let ?h = "headless_flag (argv_headless w)"
  obtain r t where fe: "fetch_entries w ?h = (r, t)" by (cases "fetch_entries w ?h")
  have "rendered_calls (snd (main w)) = rendered_calls t"
  proof (cases r)
    case (Inl e)
    with fe show ?thesis by (simp add: main_def rendered_calls_def)
  next
    case (Inr entries)
    obtain r' t' where up: "append_to_sheet w (deduplicate entries) = (r', t')"
      by (cases "append_to_sheet w (deduplicate entries)")
    with sheet_no_start [of w "deduplicate entries"] have "count_list t' PlaywrightStart = 0"
      by simp
    with fe Inr up show ?thesis
      by (cases r') (simp_all add: main_def rendered_calls_def Let_def)
  qed
  with fetch_entries_calls [of w ?h] fe show ?thesis by simp
qed

theorem rendered_fetch_iff_no_entries_witness:
  "rendered_calls (snd (main (good_world (document [])))) = 1 \<and>
   rendered_calls (snd (main (good_world scenario_A))) = 0"
proof -
  have a: "(case fst (fetch_with_requests (good_world (document [])) URL) of
        Inl e \<Rightarrow> 0
      | Inr html \<Rightarrow> if parse_entries (soup_of (good_world (document [])) html) = [] then 1 else 0)
      = (1::nat)"
    by code_simp
  have b: "(case fst (fetch_with_requests (good_world scenario_A) URL) of
        Inl e \<Rightarrow> 0
      | Inr html \<Rightarrow> if parse_entries (soup_of (good_world scenario_A) html) = [] then 1 else 0)
      = (0::nat)"
    by code_simp
  from rendered_fetch_iff_no_entries [of "good_world (document [])"] a
    rendered_fetch_iff_no_entries [of "good_world scenario_A"] b
  show ?thesis by (simp only:)
qed

text \<open>
  Claim C8. Whenever the environment has no credential path, or an empty one, or the
  named file does not exist, the sheet uploader raises the configuration error and has
  made no call at all by then, so none to the spreadsheet service.
\<close>

theorem missing_credentials_config_error:
  "environ_creds w = None \<or> environ_creds w = Some [] \<or>
   (\<exists>p. environ_creds w = Some p \<and> \<not> path_exists w p) \<Longrightarrow>
   append_to_sheet w rows = (Inl ConfigError, [])"
  by (auto simp: append_to_sheet_def)

theorem missing_credentials_config_error_witness:
  "environ_creds ((good_world (document [])) \<lparr> environ_creds := None \<rparr>) = None \<and>
   append_to_sheet ((good_world (document [])) \<lparr> environ_creds := None \<rparr>) two_cases
     = (Inl ConfigError, [])"
proof -
  have h: "environ_creds ((good_world (document [])) \<lparr> environ_creds := None \<rparr>) = None"
    by simp
  from missing_credentials_config_error [of "(good_world (document [])) \<lparr> environ_creds := None \<rparr>" two_cases] h
  show ?thesis by blast
qed

text \<open>
  With no rows and the credential file in place the uploader is not without effect on
  the network: it authorizes, opens the spreadsheet and opens the tab.
\<close>

theorem empty_rows_still_open_sheet:
  "append_to_sheet (good_world (document [])) [] =
     (Inr (), [ReadKeyfile ''creds.json'', Authorize, OpenByKey SHEET_ID, Worksheet SHEET_TAB]) \<and>
   filter sheet_call (snd (append_to_sheet (good_world (document [])) []))
     = [Authorize, OpenByKey SHEET_ID, Worksheet SHEET_TAB] \<and>
   filter sheet_call (snd (append_to_sheet (good_world (document [])) [])) \<noteq> []"
  by code_simp

text \<open>
  Claim C3, as the code has it. When the input sequence of rows is empty the sheet
  uploader makes no append call; with the credential file in place and the service
  answering, it still reads the key file, authorizes, opens the spreadsheet and its tab,
  and returns.
\<close>

theorem empty_rows_no_append:
  "AppendRows d \<notin> set (snd (append_to_sheet w [])) \<and>
   (environ_creds w = Some p \<and> p \<noteq> [] \<and> path_exists w p \<and> keyfile_ok w \<and> authorize_ok w \<and>
    open_ok w \<and> worksheet_ok w \<longrightarrow>
    append_to_sheet w [] =
      (Inr (), [ReadKeyfile p, Authorize, OpenByKey SHEET_ID, Worksheet SHEET_TAB]))"
  by (auto simp: append_to_sheet_def Let_def split: option.splits)

theorem empty_rows_no_append_witness:
  "append_to_sheet (good_world (document [])) [] =
     (Inr (), [ReadKeyfile ''creds.json'', Authorize, OpenByKey SHEET_ID, Worksheet SHEET_TAB])"
proof -
  let ?w = "good_world (document [])"
  have h: "environ_creds ?w = Some ''creds.json'' \<and> ''creds.json'' \<noteq> [] \<and>
     path_exists ?w ''creds.json'' \<and> keyfile_ok ?w \<and> authorize_ok ?w \<and> open_ok ?w \<and> worksheet_ok ?w"
    by (simp add: good_world_def)
  from empty_rows_no_append [of _ ?w "''creds.json''"] h show ?thesis by blast
qed

text \<open>
  Claim C9. On every call of the rendered fetcher the Playwright session, once entered, is
  left exactly once, and leaving it is the last thing the call does, whether the body
  returns the content or raises at the launch, the new page, the navigation, the content
  or the close. When the session cannot be entered the call raises with nothing launched.
  (\<open>browser.close()\<close> itself is reached on the path without an error only; on the
  others the release is the exit of the \<open>with\<close> block.)
\<close>

theorem playwright_session_left:
  "(start_ok w \<longrightarrow>
      hd (snd (fetch_with_playwright w url headless)) = PlaywrightStart \<and>
      last (snd (fetch_with_playwright w url headless)) = PlaywrightStop \<and>
      count_list (snd (fetch_with_playwright w url headless)) PlaywrightStart = 1 \<and>
      count_list (snd (fetch_with_playwright w url headless)) PlaywrightStop = 1) \<and>
   (\<not> start_ok w \<longrightarrow>
      fetch_with_playwright w url headless = (Inl BrowserError, [PlaywrightStart]))"
  using body_no_start [of w url headless] body_no_stop [of w url headless]
  by (simp add: fetch_with_playwright_def case_prod_beta)

theorem playwright_session_left_witness:
  "fetch_with_playwright ((good_world (document [])) \<lparr> goto_ok := False \<rparr>) URL True =
     (Inl BrowserError, [PlaywrightStart, Launch True, NewPage, Goto URL, PlaywrightStop]) \<and>
   last (snd (fetch_with_playwright ((good_world (document [])) \<lparr> goto_ok := False \<rparr>) URL True))
     = PlaywrightStop \<and>
   fetch_with_playwright ((good_world (document [])) \<lparr> start_ok := False \<rparr>) URL True =
     (Inl BrowserError, [PlaywrightStart])"
proof -
  let ?w = "(good_world (document [])) \<lparr> goto_ok := False \<rparr>"
  let ?v = "(good_world (document [])) \<lparr> start_ok := False \<rparr>"
  have h: "start_ok ?w" by (simp add: good_world_def)
  have g: "\<not> start_ok ?v" by simp
  have e: "fetch_with_playwright ?w URL True =
     (Inl BrowserError, [PlaywrightStart, Launch True, NewPage, Goto URL, PlaywrightStop])"
    by code_simp
  from playwright_session_left [of ?w URL True] h e playwright_session_left [of ?v URL True] g
  show ?thesis by blast
qed

end
